theory Spec2Isabelle
  imports Main
begin

section \<open>Data model (state/models.py, fetcher/onchain.py)\<close>

text \<open>
  All amounts are Python integers, hence unbounded: they are modelled as \<open>int\<close>.
  Token addresses are strings. Several dataclasses of the source share field names
  (\<open>amount_in\<close>, \<open>from_token\<close>, \<open>block_number\<close>, ...); the fields of
  \<open>QuoteResult\<close> carry the prefix \<open>qr_\<close> and the fields of \<open>FetchResult\<close> the
  prefix \<open>fetched_\<close> to keep them apart.
\<close>

record TokenPair =
  base_token :: string
  quote_token :: string

record ProbePoint =
  amount_in :: int
  amount_out :: int

record DirectionBook =
  from_token :: string
  to_token :: string
  probes :: "ProbePoint list"
  from_balance :: int
  to_balance :: int

record QuoteResult =
  qr_from_token :: string
  qr_to_token :: string
  qr_amount_in :: int
  qr_amount_out :: int
  qr_block_number :: int

record RawPairData =
  pair :: TokenPair
  ask_probes :: "ProbePoint list"
  bid_probes :: "ProbePoint list"
  balance_base :: int
  balance_quote :: int

record FetchResult =
  fetched_pairs :: "RawPairData list"
  fetched_block_number :: int
  fetched_block_timestamp :: int

section \<open>Python primitives that can raise\<close>

datatype py_error = IndexError | ZeroDivisionError | ValueError

text \<open>\<open>xs[i]\<close> for an index \<open>i \<ge> 0\<close>: raises IndexError out of range.\<close>

definition item :: "'a list \<Rightarrow> nat \<Rightarrow> py_error + 'a" where
  "item xs i = (if i < length xs then Inr (xs ! i) else Inl IndexError)"

text \<open>\<open>xs[-1]\<close>: the last element, IndexError on the empty list.\<close>

definition last_item :: "'a list \<Rightarrow> py_error + 'a" where
  "last_item xs = (if xs = [] then Inl IndexError else Inr (last xs))"

text \<open>
  \<open>a // b\<close> on Python integers: floor division, ZeroDivisionError for \<open>b = 0\<close>.
  \<open>div\<close> on \<open>int\<close> is floor division as well.
\<close>

definition floordiv :: "int \<Rightarrow> int \<Rightarrow> py_error + int" where
  "floordiv a b = (if b = 0 then Inl ZeroDivisionError else Inr (a div b))"

section \<open>Quoting engine (quoting/engine.py)\<close>

text \<open>
  \<open>_calc_quote\<close> has five \<open>return\<close> statements. The model returns, next to the
  amount, the statement that produced it, so that statements about which branch of the
  source runs can be made:
  \<^item> \<open>OriginZero\<close>: \<open>return 0\<close> under \<open>first.amount_in == 0\<close>;
  \<^item> \<open>OriginSegment\<close>: \<open>return out\<close> of segment 0, origin to \<open>probes[0]\<close>;
  \<^item> \<open>SegmentZero i\<close>: \<open>return lower.amount_out\<close> under \<open>delta_in == 0\<close>, in iteration \<open>i\<close>;
  \<^item> \<open>SegmentInterp i\<close>: \<open>return out\<close> of the segment \<open>probes[i]\<close> to \<open>probes[i+1]\<close>;
  \<^item> \<open>BeyondLast\<close>: \<open>return last.amount_out\<close> after the loop.
\<close>

datatype return_site =
  OriginZero | OriginSegment | SegmentZero nat | SegmentInterp nat | BeyondLast

text \<open>
  The loop \<open>for i in range(len(probes) - 1)\<close> from iteration \<open>i\<close> on, followed by the
  cap after the loop. For the empty list \<open>range(-1)\<close> is empty, as is \<open>i < 0 - 1\<close> on
  \<open>nat\<close>.
\<close>

function scan_segments ::
  "ProbePoint list \<Rightarrow> int \<Rightarrow> nat \<Rightarrow> py_error + (return_site \<times> int)" where
  "scan_segments ps a i =
     (if i < length ps - 1 then
        (case item ps (i + 1) of
           Inl e \<Rightarrow> Inl e
         | Inr upper \<Rightarrow>
             if a \<le> amount_in upper then
               (case item ps i of
                  Inl e \<Rightarrow> Inl e
                | Inr lower \<Rightarrow>
                    let delta_in = amount_in upper - amount_in lower;
                        delta_out = amount_out upper - amount_out lower
                    in if delta_in = 0 then Inr (SegmentZero i, amount_out lower)
                       else (let excess = a - amount_in lower
                             in case floordiv (excess * delta_out) delta_in of
                                  Inl e \<Rightarrow> Inl e
                                | Inr q \<Rightarrow> Inr (SegmentInterp i, amount_out lower + q)))
             else scan_segments ps a (i + 1))
      else
        (case last_item ps of
           Inl e \<Rightarrow> Inl e
         | Inr l \<Rightarrow> Inr (BeyondLast, amount_out l)))"
  by pat_completeness auto
termination
  by (relation "measure (\<lambda>(ps, a, i). length ps - i)") auto

declare scan_segments.simps [simp del]

definition calc_quote ::
  "ProbePoint list \<Rightarrow> int \<Rightarrow> py_error + (return_site \<times> int)" where
  "calc_quote ps a =
     (case item ps 0 of
        Inl e \<Rightarrow> Inl e
      | Inr first \<Rightarrow>
          if a \<le> amount_in first then
            (if amount_in first = 0 then Inr (OriginZero, 0)
             else case floordiv (a * amount_out first) (amount_in first) of
                    Inl e \<Rightarrow> Inl e
                  | Inr out \<Rightarrow> Inr (OriginSegment, out))
          else scan_segments ps a 0)"

definition empty_result :: "DirectionBook \<Rightarrow> int \<Rightarrow> int \<Rightarrow> int \<Rightarrow> QuoteResult" where
  "empty_result direction a out bn =
     \<lparr>qr_from_token = from_token direction, qr_to_token = to_token direction,
      qr_amount_in = a, qr_amount_out = out, qr_block_number = bn\<rparr>"

definition get_amount_out :: "DirectionBook \<Rightarrow> int \<Rightarrow> int \<Rightarrow> py_error + QuoteResult" where
  "get_amount_out direction a bn =
     (if a \<le> 0 \<or> probes direction = [] then Inr (empty_result direction a 0 bn)
      else case calc_quote (probes direction) a of
             Inl e \<Rightarrow> Inl e
           | Inr (site, out) \<Rightarrow>
               Inr \<lparr>qr_from_token = from_token direction, qr_to_token = to_token direction,
                    qr_amount_in = a, qr_amount_out = out, qr_block_number = bn\<rparr>)"

section \<open>Direction-book builder (state/orderbook.py)\<close>

definition build_direction_book ::
  "string \<Rightarrow> string \<Rightarrow> ProbePoint list \<Rightarrow> int \<Rightarrow> int \<Rightarrow> DirectionBook" where
  "build_direction_book from_tok to_tok ps from_bal to_bal =
     \<lparr>from_token = from_tok, to_token = to_tok, probes = ps,
      from_balance = from_bal, to_balance = to_bal\<rparr>"

section \<open>Client (client.py)\<close>

text \<open>
  The mutable attributes of \<open>ElfomoFiClient\<close>: \<open>_directions\<close>, \<open>_pair_keys\<close>,
  \<open>_current_block\<close>, \<open>_block_timestamp\<close> and the event \<open>_initialized\<close> (set or not).
  The constructor leaves them empty, \<open>0\<close> and unset.
\<close>

record Client =
  directions :: "string \<times> string \<rightharpoonup> DirectionBook"
  pair_keys :: "(string \<times> string) list"
  current_block :: int
  block_timestamp :: int
  initialized :: bool

definition init_client :: Client where
  "init_client =
     \<lparr>directions = Map.empty, pair_keys = [], current_block = 0, block_timestamp = 0,
      initialized = False\<rparr>"

text \<open>
  \<open>_get_direction\<close> normalises both addresses with \<open>w3.to_checksum_address\<close>, a function
  of the web3 library, which raises on a string that is not an address. It is a parameter
  of the model.
\<close>

definition get_direction ::
  "(string \<Rightarrow> py_error + string) \<Rightarrow> Client \<Rightarrow> string \<Rightarrow> string
     \<Rightarrow> py_error + DirectionBook option" where
  "get_direction to_checksum_address self from_tok to_tok =
     (case to_checksum_address from_tok of
        Inl e \<Rightarrow> Inl e
      | Inr f \<Rightarrow>
          (case to_checksum_address to_tok of
             Inl e \<Rightarrow> Inl e
           | Inr t \<Rightarrow> Inr (directions self (f, t))))"

definition quote ::
  "(string \<Rightarrow> py_error + string) \<Rightarrow> Client \<Rightarrow> string \<Rightarrow> string \<Rightarrow> int
     \<Rightarrow> py_error + QuoteResult option" where
  "quote to_checksum_address self from_tok to_tok a =
     (case get_direction to_checksum_address self from_tok to_tok of
        Inl e \<Rightarrow> Inl e
      | Inr None \<Rightarrow> Inr None
      | Inr (Some direction) \<Rightarrow>
          (case get_amount_out direction a (current_block self) of
             Inl e \<Rightarrow> Inl e
           | Inr r \<Rightarrow> Inr (Some r)))"

text \<open>
  How \<open>await self._fetcher.fetch_all_orderbooks()\<close> ends: with a result, with an
  exception derived from \<open>Exception\<close> (caught by \<open>except Exception\<close>), or with one that
  is not (\<open>asyncio.CancelledError\<close> when the task is cancelled), which leaves
  \<open>_on_new_block\<close> uncaught.
\<close>

datatype fetch_outcome = Fetched FetchResult | RaisedException | RaisedBaseException

datatype refresh_exit = Returned | Propagated

text \<open>The loop \<open>for raw in result.pairs\<close> that fills \<open>new_dirs\<close> and \<open>new_pairs\<close>.\<close>

fun build_state ::
  "RawPairData list \<Rightarrow> (string \<times> string \<rightharpoonup> DirectionBook) \<times> (string \<times> string) list
     \<Rightarrow> (string \<times> string \<rightharpoonup> DirectionBook) \<times> (string \<times> string) list" where
  "build_state [] (new_dirs, new_pairs) = (new_dirs, new_pairs)"
| "build_state (raw # rest) (new_dirs, new_pairs) =
     (let base = base_token (pair raw);
          quot = quote_token (pair raw);
          asks = build_direction_book quot base (ask_probes raw)
                   (balance_quote raw) (balance_base raw);
          bids = build_direction_book base quot (bid_probes raw)
                   (balance_base raw) (balance_quote raw)
      in build_state rest
           (new_dirs((from_token asks, to_token asks) \<mapsto> asks,
                     (from_token bids, to_token bids) \<mapsto> bids),
            new_pairs @ [(base, quot)]))"

text \<open>
  \<open>_on_new_block\<close>, from the point where the awaited fetch ends. There is no \<open>await\<close>
  after that point, so on the event loop the rest of the coroutine runs as one step;
  the model is that step, as a function of the client's state and the fetch outcome.
\<close>

definition on_new_block :: "Client \<Rightarrow> int \<Rightarrow> fetch_outcome \<Rightarrow> refresh_exit \<times> Client" where
  "on_new_block self block_number outcome =
     (case outcome of
        RaisedBaseException \<Rightarrow> (Propagated, self)
      | RaisedException \<Rightarrow> (Returned, self)
      | Fetched result \<Rightarrow>
          (case build_state (fetched_pairs result) (Map.empty, []) of
             (new_dirs, new_pairs) \<Rightarrow>
               if fetched_block_number result \<le> current_block self then (Returned, self)
               else (Returned,
                     self\<lparr>directions := new_dirs, pair_keys := new_pairs,
                          current_block := fetched_block_number result,
                          block_timestamp := fetched_block_timestamp result,
                          initialized := True\<rparr>)))"

text \<open>
  A run of refreshes, in the order in which their fetches end; each entry is the block
  number of the notification and the outcome of its fetch.
\<close>

fun run_refreshes :: "Client \<Rightarrow> (int \<times> fetch_outcome) list \<Rightarrow> Client" where
  "run_refreshes self [] = self"
| "run_refreshes self ((block_number, outcome) # rest) =
     run_refreshes (snd (on_new_block self block_number outcome)) rest"

section \<open>Auxiliary notions for the proofs\<close>

text \<open>
  The value of the segment loop read as a recursion over the list: \<open>lower\<close> is the point
  the scan stands on and the list holds the points after it.
\<close>

fun interp_from :: "ProbePoint \<Rightarrow> ProbePoint list \<Rightarrow> int \<Rightarrow> int" where
  "interp_from lower [] a = amount_out lower"
| "interp_from lower (upper # rest) a =
     (if a \<le> amount_in upper then
        (if amount_in upper - amount_in lower = 0 then amount_out lower
         else amount_out lower
              + ((a - amount_in lower) * (amount_out upper - amount_out lower))
                div (amount_in upper - amount_in lower))
      else interp_from upper rest a)"

text \<open>
  A curve as the data model describes it: \<open>amount_in\<close> strictly increasing,
  \<open>amount_out\<close> non-decreasing and non-negative.
\<close>

definition increasing_curve :: "ProbePoint list \<Rightarrow> bool" where
  "increasing_curve ps \<longleftrightarrow>
     sorted_wrt (\<lambda>p q. amount_in p < amount_in q \<and> amount_out p \<le> amount_out q) ps
     \<and> (\<forall>p \<in> set ps. 0 \<le> amount_out p)"

text \<open>
  A curve of the data model with respect to \<open>amount_in\<close>: the values are non-negative
  and do not decrease along the list. Curves with strictly increasing \<open>amount_in\<close> are
  among them; duplicates are allowed.
\<close>

definition sorted_curve :: "ProbePoint list \<Rightarrow> bool" where
  "sorted_curve ps \<longleftrightarrow>
     sorted_wrt (\<lambda>p q. amount_in p \<le> amount_in q) ps \<and> list_all (\<lambda>p. 0 \<le> amount_in p) ps"

section \<open>The publish step, write by write\<close>



text \<open>The client that holds exactly the snapshot built from one fetch result.\<close>

definition snapshot_client :: "FetchResult \<Rightarrow> Client" where
  "snapshot_client result =
     (case build_state (fetched_pairs result) (Map.empty, []) of
        (new_dirs, new_pairs) \<Rightarrow>
          \<lparr>directions = new_dirs, pair_keys = new_pairs,
           current_block = fetched_block_number result,
           block_timestamp = fetched_block_timestamp result, initialized = True\<rparr>)"

section \<open>Addresses and example data\<close>

text \<open>
  \<open>w3.to_checksum_address\<close> belongs to the web3 library, not to this repository. It
  returns the checksummed form of a 20-byte hexadecimal address and raises
  \<open>ValueError\<close> on a string that is not one. \<open>checked_address\<close> stands for it in the
  examples: it rejects every string that is not \<open>0x\<close> followed by 40 hexadecimal
  digits and returns an accepted string as it is, which is what the library does on an
  address that is already checksummed. The rewriting of the letters' case is not
  modelled, so it is applied to checksummed addresses only.
\<close>

definition checked_address :: "string \<Rightarrow> py_error + string" where
  "checked_address s =
     (if length s = 42 \<and> take 2 s = ''0x''
         \<and> list_all (\<lambda>c. c \<in> set ''0123456789abcdefABCDEF'') (drop 2 s)
      then Inr s else Inl ValueError)"

text \<open>The token addresses of \<open>examples/basic_usage.py\<close> and the helper's of \<open>chains.py\<close>.\<close>

definition WETH :: string where
  "WETH = ''0x4200000000000000000000000000000000000006''"

definition USDC :: string where
  "USDC = ''0x833589fCD6eDb6E08f4c7C32D4f71b54bdA02913''"

definition helper_address :: string where
  "helper_address = ''0xc1b13606FC7227f2554067aFb3fb12De75C02d81''"

text \<open>
  Two fetch results for the pair WETH/USDC, sampled at the blocks 10 and 11, with
  different bid curves, and the client after the first one was published.
\<close>

definition result_10 :: FetchResult where
  "result_10 =
     \<lparr>fetched_pairs =
        [\<lparr>pair = \<lparr>base_token = WETH, quote_token = USDC\<rparr>, ask_probes = [],
          bid_probes = [\<lparr>amount_in = 100, amount_out = 200\<rparr>],
          balance_base = 0, balance_quote = 0\<rparr>],
      fetched_block_number = 10, fetched_block_timestamp = 1000\<rparr>"


definition client_at_10 :: Client where
  "client_at_10 = snd (on_new_block init_client 10 (Fetched result_10))"

section \<open>The segment loop as a recursion over the list\<close>

text \<open>
  From iteration \<open>i\<close> on, the loop returns what \<open>interp_from\<close> computes from the point
  \<open>probes[i]\<close> and the points after it, and it returns at one of its own three
  \<open>return\<close> statements.
\<close>

lemma scan_segments_interp:
  "i < length ps \<Longrightarrow>
   \<exists>site. scan_segments ps a i = Inr (site, interp_from (ps ! i) (drop (Suc i) ps) a)
          \<and> site \<noteq> OriginZero \<and> site \<noteq> OriginSegment"
proof (induction ps a i rule: scan_segments.induct)
  case (1 ps a i)
  show ?case
  proof (cases "i < length ps - 1")
    case True
    then have lt: "Suc i < length ps" by simp
    have dr: "drop (Suc i) ps = ps ! Suc i # drop (Suc (Suc i)) ps"
      using lt by (simp add: Cons_nth_drop_Suc)
    have up: "item ps (Suc i) = Inr (ps ! Suc i)" using lt by (simp add: item_def)
    have lo: "item ps i = Inr (ps ! i)" using "1.prems" by (simp add: item_def)
    show ?thesis
    proof (cases "a \<le> amount_in (ps ! Suc i)")
      case le: True
      show ?thesis
        using True le
        by (subst scan_segments.simps) (simp add: up lo dr floordiv_def Let_def)
    next
      case gt: False
      have up': "item ps (i + 1) = Inr (ps ! Suc i)" using up by simp
      from "1.IH"[OF True up' gt] lt
      obtain site where
        "scan_segments ps a (i + 1)
           = Inr (site, interp_from (ps ! (i + 1)) (drop (Suc (i + 1)) ps) a)"
        "site \<noteq> OriginZero" "site \<noteq> OriginSegment" by auto
      then show ?thesis
        using True gt
        by (subst scan_segments.simps) (simp add: up dr)
    qed
  next
    case False
    with "1.prems" have i: "i = length ps - 1" and ne: "ps \<noteq> []" by auto
    have "last ps = ps ! i" using i ne by (simp add: last_conv_nth)
    then show ?thesis
      using False i ne
      by (subst scan_segments.simps) (simp add: last_item_def)
  qed
qed

text \<open>What \<open>_calc_quote\<close> returns on a non-empty list, branch by branch.\<close>

lemma calc_quote_origin:
  "a \<le> amount_in p \<Longrightarrow> amount_in p \<noteq> 0 \<Longrightarrow>
   calc_quote (p # ps) a = Inr (OriginSegment, (a * amount_out p) div amount_in p)"
  by (simp add: calc_quote_def item_def floordiv_def)

lemma calc_quote_origin_zero:
  "a \<le> amount_in p \<Longrightarrow> amount_in p = 0 \<Longrightarrow> calc_quote (p # ps) a = Inr (OriginZero, 0)"
  by (simp add: calc_quote_def item_def)

lemma calc_quote_scan:
  assumes "amount_in p < a"
  shows "\<exists>site. calc_quote (p # ps) a = Inr (site, interp_from p ps a)
               \<and> site \<noteq> OriginZero \<and> site \<noteq> OriginSegment"
proof -
  have "calc_quote (p # ps) a = scan_segments (p # ps) a 0"
    using assms by (simp add: calc_quote_def item_def)
  moreover have "\<exists>site. scan_segments (p # ps) a 0
                         = Inr (site, interp_from ((p # ps) ! 0) (drop (Suc 0) (p # ps)) a)
                       \<and> site \<noteq> OriginZero \<and> site \<noteq> OriginSegment"
    by (rule scan_segments_interp) simp
  ultimately show ?thesis by simp
qed

section \<open>The engine never fails; two guards are never taken\<close>

text \<open>
  On a non-empty list \<open>_calc_quote\<close> returns a value: neither of its two divisions has
  a zero divisor and no index is out of range.
\<close>

lemma calc_quote_total:
  assumes "ps \<noteq> []"
  shows "\<exists>site v. calc_quote ps a = Inr (site, v)"
proof -
  from assms obtain p rest where ps: "ps = p # rest" by (cases ps) auto
  show ?thesis
  proof (cases "a \<le> amount_in p")
    case True
    then show ?thesis
      using calc_quote_origin[of a p rest] calc_quote_origin_zero[of a p rest]
      by (cases "amount_in p = 0") (auto simp: ps)
  next
    case False
    then show ?thesis using calc_quote_scan[of p a rest] by (auto simp: ps)
  qed
qed

text \<open>
  The guard \<open>first.amount_in == 0\<close> is only passed with \<open>amount_in \<le> 0\<close>. The guard
  \<open>delta_in == 0\<close> is never passed at all: iteration \<open>i\<close> is reached only with
  \<open>amount_in > probes[i].amount_in\<close>, and the segment is taken only with
  \<open>amount_in \<le> probes[i+1].amount_in\<close>, so its width is positive.
\<close>

lemma calc_quote_not_origin_zero:
  assumes "1 \<le> a"
  shows "calc_quote ps a \<noteq> Inr (OriginZero, v)"
proof (cases ps)
  case Nil
  then show ?thesis by (simp add: calc_quote_def item_def)
next
  case (Cons p rest)
  show ?thesis
  proof (cases "a \<le> amount_in p")
    case True
    with assms have "amount_in p \<noteq> 0" by simp
    with True show ?thesis using calc_quote_origin[of a p rest] by (simp add: Cons)
  next
    case False
    then show ?thesis using calc_quote_scan[of p a rest] by (auto simp: Cons)
  qed
qed

lemma scan_segments_not_zero:
  "i < length ps \<Longrightarrow> amount_in (ps ! i) < a \<Longrightarrow> scan_segments ps a i \<noteq> Inr (SegmentZero j, v)"
proof (induction ps a i rule: scan_segments.induct)
  case (1 ps a i)
  show ?case
  proof (cases "i < length ps - 1")
    case True
    then have lt: "Suc i < length ps" by simp
    have up: "item ps (Suc i) = Inr (ps ! Suc i)" using lt by (simp add: item_def)
    have lo: "item ps i = Inr (ps ! i)" using "1.prems" by (simp add: item_def)
    show ?thesis
    proof (cases "a \<le> amount_in (ps ! Suc i)")
      case le: True
      with "1.prems" have "amount_in (ps ! Suc i) - amount_in (ps ! i) \<noteq> 0" by simp
      then show ?thesis
        using True le
        by (subst scan_segments.simps) (simp add: up lo floordiv_def Let_def)
    next
      case gt: False
      have up': "item ps (i + 1) = Inr (ps ! Suc i)" using up by simp
      have "scan_segments ps a (i + 1) \<noteq> Inr (SegmentZero j, v)"
        using "1.IH"[OF True up' gt] lt gt by simp
      then show ?thesis
        using True gt
        by (subst scan_segments.simps) (simp add: up)
    qed
  next
    case False
    then show ?thesis
      by (subst scan_segments.simps) (simp add: last_item_def)
  qed
qed

lemma calc_quote_not_segment_zero: "calc_quote ps a \<noteq> Inr (SegmentZero j, v)"
proof (cases ps)
  case Nil
  then show ?thesis by (simp add: calc_quote_def item_def)
next
  case (Cons p rest)
  show ?thesis
  proof (cases "a \<le> amount_in p")
    case True
    then show ?thesis
      by (simp add: Cons calc_quote_def item_def floordiv_def)
  next
    case False
    then have "calc_quote ps a = scan_segments ps a 0"
      by (simp add: Cons calc_quote_def item_def)
    moreover have "scan_segments ps a 0 \<noteq> Inr (SegmentZero j, v)"
      using False by (intro scan_segments_not_zero) (simp_all add: Cons)
    ultimately show ?thesis by simp
  qed
qed

section \<open>Arithmetic of one segment\<close>

text \<open>
  The interpolated part \<open>(excess * delta_out) // delta_in\<close> of a segment with positive
  width and non-negative rise: it is non-negative, monotone in the excess and at most
  the rise. On an increasing curve the loop's value therefore stays between the output
  of the point it starts from and the output of the last point, and is monotone.
\<close>

lemma seg_nonneg:
  fixes e dout din :: int
  assumes "0 < din" "0 \<le> dout" "0 \<le> e"
  shows "0 \<le> (e * dout) div din"
  using assms by (simp add: pos_imp_zdiv_nonneg_iff)

lemma seg_mono:
  fixes e e' dout din :: int
  assumes "0 < din" "0 \<le> dout" "e \<le> e'"
  shows "(e * dout) div din \<le> (e' * dout) div din"
  using assms by (intro zdiv_mono1 mult_right_mono) simp_all

lemma seg_upper:
  fixes e dout din :: int
  assumes "0 < din" "0 \<le> dout" "e \<le> din"
  shows "(e * dout) div din \<le> dout"
proof -
  have "(e * dout) div din \<le> (din * dout) div din"
    using assms by (rule seg_mono)
  also have "\<dots> = dout" using assms by simp
  finally show ?thesis .
qed

lemma increasing_curve_Cons:
  "increasing_curve (p # q # ps) \<Longrightarrow>
     amount_in p < amount_in q \<and> amount_out p \<le> amount_out q \<and> 0 \<le> amount_out p
     \<and> increasing_curve (q # ps)"
  by (simp add: increasing_curve_def)

lemma increasing_curve_last:
  "increasing_curve (p # ps) \<Longrightarrow> amount_out p \<le> amount_out (last (p # ps))"
proof (cases ps)
  case Nil then show ?thesis by simp
next
  case (Cons q qs)
  assume "increasing_curve (p # ps)"
  then have "\<forall>x \<in> set ps. amount_out p \<le> amount_out x"
    by (simp add: increasing_curve_def)
  moreover have "last (p # ps) \<in> set ps" using Cons by simp
  ultimately show ?thesis by blast
qed

lemma interp_from_bounds:
  "increasing_curve (l # rest) \<Longrightarrow> amount_in l < a \<Longrightarrow>
   amount_out l \<le> interp_from l rest a \<and> interp_from l rest a \<le> amount_out (last (l # rest))"
proof (induction rest arbitrary: l)
  case Nil
  then show ?case by simp
next
  case (Cons u rest)
  from Cons.prems(1) have inc: "amount_in l < amount_in u" "amount_out l \<le> amount_out u"
    and rest: "increasing_curve (u # rest)"
    using increasing_curve_Cons by blast+
  have ulast: "amount_out u \<le> amount_out (last (u # rest))"
    using rest by (rule increasing_curve_last)
  show ?case
  proof (cases "a \<le> amount_in u")
    case True
    have din: "0 < amount_in u - amount_in l" using inc by simp
    have dout: "0 \<le> amount_out u - amount_out l" using inc by simp
    have lo: "0 \<le> ((a - amount_in l) * (amount_out u - amount_out l)) div (amount_in u - amount_in l)"
      using din dout Cons.prems(2) by (intro seg_nonneg) simp_all
    have hi: "((a - amount_in l) * (amount_out u - amount_out l)) div (amount_in u - amount_in l)
                \<le> amount_out u - amount_out l"
      using din dout True by (intro seg_upper) simp_all
    show ?thesis using True din lo hi ulast by simp
  next
    case False
    then have "amount_in u < a" by simp
    from Cons.IH[OF rest this] inc False show ?thesis by simp
  qed
qed

lemma interp_from_mono:
  "increasing_curve (l # rest) \<Longrightarrow> amount_in l < a \<Longrightarrow> a \<le> b \<Longrightarrow>
   interp_from l rest a \<le> interp_from l rest b"
proof (induction rest arbitrary: l)
  case Nil
  then show ?case by simp
next
  case (Cons u rest)
  from Cons.prems(1) have inc: "amount_in l < amount_in u" "amount_out l \<le> amount_out u"
    and rest: "increasing_curve (u # rest)"
    using increasing_curve_Cons by blast+
  have din: "0 < amount_in u - amount_in l" using inc by simp
  have dout: "0 \<le> amount_out u - amount_out l" using inc by simp
  show ?case
  proof (cases "b \<le> amount_in u")
    case True
    with Cons.prems(3) have au: "a \<le> amount_in u" by simp
    have "((a - amount_in l) * (amount_out u - amount_out l)) div (amount_in u - amount_in l)
            \<le> ((b - amount_in l) * (amount_out u - amount_out l)) div (amount_in u - amount_in l)"
      using din dout Cons.prems(3) by (intro seg_mono) simp_all
    then show ?thesis using True au din by simp
  next
    case bu: False
    then have ub: "amount_in u < b" by simp
    show ?thesis
    proof (cases "a \<le> amount_in u")
      case True
      have "((a - amount_in l) * (amount_out u - amount_out l)) div (amount_in u - amount_in l)
              \<le> amount_out u - amount_out l"
        using din dout True by (intro seg_upper) simp_all
      then have "interp_from l (u # rest) a \<le> amount_out u" using True din by simp
      also have "amount_out u \<le> interp_from u rest b"
        using interp_from_bounds[OF rest ub] by simp
      finally show ?thesis using bu by simp
    next
      case False
      then have "amount_in u < a" by simp
      from Cons.IH[OF rest this Cons.prems(3)] False bu show ?thesis by simp
    qed
  qed
qed

text \<open>The amount \<open>get_amount_out\<close> returns on a non-empty curve, in closed form.\<close>

lemma get_amount_out_value:
  assumes "probes d = p # rest"
  shows "get_amount_out d a bn
           = Inr (empty_result d a
                    (if a \<le> 0 then 0
                     else if a \<le> amount_in p then (a * amount_out p) div amount_in p
                     else interp_from p rest a) bn)"
proof (cases "a \<le> 0")
  case True
  then show ?thesis by (simp add: get_amount_out_def)
next
  case pos: False
  show ?thesis
  proof (cases "a \<le> amount_in p")
    case True
    with pos have "amount_in p \<noteq> 0" by simp
    from calc_quote_origin[OF True this, of rest] pos True show ?thesis
      by (simp add: get_amount_out_def assms empty_result_def)
  next
    case False
    then have "amount_in p < a" by simp
    from calc_quote_scan[OF this, of rest] pos False show ?thesis
      by (auto simp: get_amount_out_def assms empty_result_def)
  qed
qed

lemma origin_value_bounds:
  fixes a i out :: int
  assumes "0 < a" "a \<le> i" "0 \<le> out"
  shows "0 \<le> (a * out) div i \<and> (a * out) div i \<le> out"
  using assms seg_nonneg[of i out a] seg_upper[of i out a] by simp

section \<open>Queries beyond every probe and queries at a probe\<close>

text \<open>
  A query above every probe runs through the whole loop to the cap; a query equal to the
  \<open>amount_in\<close> of point \<open>k\<close>, with the earlier points below it, stops in the segment
  that ends at \<open>k\<close> and yields that point's \<open>amount_out\<close> exactly.
\<close>

lemma scan_segments_beyond:
  "i < length ps \<Longrightarrow> \<forall>p \<in> set ps. amount_in p < a \<Longrightarrow>
   scan_segments ps a i = Inr (BeyondLast, amount_out (last ps))"
proof (induction ps a i rule: scan_segments.induct)
  case (1 ps a i)
  show ?case
  proof (cases "i < length ps - 1")
    case True
    then have lt: "Suc i < length ps" by simp
    have up: "item ps (Suc i) = Inr (ps ! Suc i)" using lt by (simp add: item_def)
    have gt: "\<not> a \<le> amount_in (ps ! Suc i)"
      using "1.prems"(2) lt by (simp add: not_le)
    have up': "item ps (i + 1) = Inr (ps ! Suc i)" using up by simp
    have "scan_segments ps a (i + 1) = Inr (BeyondLast, amount_out (last ps))"
      using "1.IH"[OF True up' gt] lt "1.prems"(2) by simp
    then show ?thesis
      using True gt by (subst scan_segments.simps) (simp add: up)
  next
    case False
    with "1.prems"(1) have "ps \<noteq> []" by auto
    then show ?thesis
      using False by (subst scan_segments.simps) (simp add: last_item_def)
  qed
qed

lemma scan_segments_hits:
  "i < k \<Longrightarrow> k < length ps \<Longrightarrow> amount_in (ps ! i) < a \<Longrightarrow>
   (\<forall>j. i < j \<and> j < k \<longrightarrow> amount_in (ps ! j) < a) \<Longrightarrow> a = amount_in (ps ! k) \<Longrightarrow>
   scan_segments ps a i = Inr (SegmentInterp (k - 1), amount_out (ps ! k))"
proof (induction ps a i rule: scan_segments.induct)
  case (1 ps a i)
  from "1.prems"(1,2) have True: "i < length ps - 1" and lt: "Suc i < length ps" by simp_all
  have up: "item ps (Suc i) = Inr (ps ! Suc i)" using lt by (simp add: item_def)
  have lo: "item ps i = Inr (ps ! i)" using lt by (simp add: item_def)
  show ?case
  proof (cases "Suc i = k")
    case eq: True
    have le: "a \<le> amount_in (ps ! Suc i)" using "1.prems"(5) eq by simp
    have din: "amount_in (ps ! Suc i) - amount_in (ps ! i) \<noteq> 0"
      using "1.prems"(3,5) eq by simp
    have ex: "a - amount_in (ps ! i) = amount_in (ps ! Suc i) - amount_in (ps ! i)"
      using "1.prems"(5) eq by simp
    have "scan_segments ps a i
            = Inr (SegmentInterp i,
                   amount_out (ps ! i)
                   + ((a - amount_in (ps ! i)) * (amount_out (ps ! Suc i) - amount_out (ps ! i)))
                     div (amount_in (ps ! Suc i) - amount_in (ps ! i)))"
      using True le din
      by (subst scan_segments.simps) (simp add: up lo floordiv_def Let_def)
    also have "((a - amount_in (ps ! i)) * (amount_out (ps ! Suc i) - amount_out (ps ! i)))
                 div (amount_in (ps ! Suc i) - amount_in (ps ! i))
               = amount_out (ps ! Suc i) - amount_out (ps ! i)"
      unfolding ex using din by simp
    finally show ?thesis using eq by auto
  next
    case False
    with "1.prems"(1) have ik: "Suc i < k" by simp
    have gt: "\<not> a \<le> amount_in (ps ! Suc i)"
      using "1.prems"(4) ik by (simp add: not_le)
    have up': "item ps (i + 1) = Inr (ps ! Suc i)" using up by simp
    have "scan_segments ps a (i + 1) = Inr (SegmentInterp (k - 1), amount_out (ps ! k))"
      using "1.IH"[OF True up' gt] ik "1.prems"(2,4,5) gt by simp
    then show ?thesis
      using True gt by (subst scan_segments.simps) (simp add: up)
  qed
qed

lemma calc_quote_at_probe:
  assumes k: "k < length ps" and a: "a = amount_in (ps ! k)" and pos: "0 < a"
    and below: "\<forall>j<k. amount_in (ps ! j) < a"
  shows "calc_quote ps a
           = Inr (if k = 0 then OriginSegment else SegmentInterp (k - 1), amount_out (ps ! k))"
proof (cases k)
  case 0
  from k obtain p rest where ps: "ps = p # rest" by (cases ps) auto
  have "a \<le> amount_in p" "amount_in p \<noteq> 0" using a pos 0 ps by simp_all
  from calc_quote_origin[OF this, of rest] a 0 ps pos show ?thesis by simp
next
  case (Suc n)
  have first: "amount_in (ps ! 0) < a" using below Suc by simp
  from k obtain p rest where ps: "ps = p # rest" by (cases ps) auto
  have "calc_quote ps a = scan_segments ps a 0"
    using first by (simp add: ps calc_quote_def item_def)
  also have "\<dots> = Inr (SegmentInterp (k - 1), amount_out (ps ! k))"
    using Suc k first below a by (intro scan_segments_hits) simp_all
  finally show ?thesis using Suc by simp
qed

section \<open>The refresh step and the result record\<close>

text \<open>A stale result changes nothing, and no refresh lowers the block number.\<close>

lemma on_new_block_stale:
  "fetched_block_number r \<le> current_block s \<Longrightarrow> on_new_block s n (Fetched r) = (Returned, s)"
  by (simp add: on_new_block_def split: prod.splits)

lemma on_new_block_current_block:
  "current_block s \<le> current_block (snd (on_new_block s n outcome))"
  by (cases outcome) (simp_all add: on_new_block_def split: prod.splits)

lemma run_refreshes_current_block:
  "current_block s \<le> current_block (run_refreshes s events)"
proof (induction events arbitrary: s)
  case Nil
  then show ?case by simp
next
  case (Cons ev events)
  obtain n outcome where ev: "ev = (n, outcome)" by (cases ev)
  have "current_block s \<le> current_block (snd (on_new_block s n outcome))"
    by (rule on_new_block_current_block)
  also have "\<dots> \<le> current_block (run_refreshes (snd (on_new_block s n outcome)) events)"
    by (rule Cons.IH)
  finally show ?case by (simp add: ev)
qed

lemma run_refreshes_append:
  "run_refreshes s (xs @ ys) = run_refreshes (run_refreshes s xs) ys"
  by (induction xs arbitrary: s) auto

text \<open>\<open>get_amount_out\<close> always returns, and stamps the result with its arguments.\<close>

lemma get_amount_out_fields:
  assumes "get_amount_out d a bn = Inr r"
  shows "qr_from_token r = from_token d \<and> qr_to_token r = to_token d
         \<and> qr_amount_in r = a \<and> qr_block_number r = bn"
  using assms
  by (auto simp: get_amount_out_def empty_result_def split: if_splits sum.splits prod.splits)

lemma get_amount_out_returns: "\<exists>r. get_amount_out d a bn = Inr r"
proof (cases "a \<le> 0 \<or> probes d = []")
  case True
  then show ?thesis by (auto simp: get_amount_out_def)
next
  case False
  then obtain site v where "calc_quote (probes d) a = Inr (site, v)"
    using calc_quote_total[of "probes d" a] by auto
  with False show ?thesis by (simp add: get_amount_out_def)
qed

section \<open>Sorted curves\<close>

text \<open>
  On a curve whose \<open>amount_in\<close> does not decrease, no point lies above the last one, so
  a query above the last point is above every point.
\<close>

lemma sorted_curve_below_last:
  "sorted_wrt (\<lambda>p q. amount_in p \<le> amount_in q) ps \<Longrightarrow> p \<in> set ps \<Longrightarrow>
   amount_in p \<le> amount_in (last ps)"
proof (induction ps)
  case Nil
  then show ?case by simp
next
  case (Cons x xs)
  show ?case
  proof (cases "xs = []")
    case True
    with Cons.prems show ?thesis by simp
  next
    case False
    then have l: "last (x # xs) = last xs" and lin: "last xs \<in> set xs" by simp_all
    from Cons.prems(1) have hd: "\<forall>q \<in> set xs. amount_in x \<le> amount_in q"
      and tl: "sorted_wrt (\<lambda>p q. amount_in p \<le> amount_in q) xs" by simp_all
    show ?thesis
    proof (cases "p = x")
      case True
      then show ?thesis using hd lin l by simp
    next
      case False
      with Cons.prems(2) have "p \<in> set xs" by simp
      from Cons.IH[OF tl this] l show ?thesis by simp
    qed
  qed
qed

lemma calc_quote_beyond_every_probe:
  assumes "ps \<noteq> []" and "\<forall>p \<in> set ps. amount_in p < a"
  shows "calc_quote ps a = Inr (BeyondLast, amount_out (last ps))"
proof -
  from assms(1) obtain p rest where ps: "ps = p # rest" by (cases ps) auto
  have "amount_in p < a" using assms(2) ps by simp
  then have "calc_quote ps a = scan_segments ps a 0"
    by (simp add: ps calc_quote_def item_def)
  also have "\<dots> = Inr (BeyondLast, amount_out (last ps))"
    using assms by (intro scan_segments_beyond) simp_all
  finally show ?thesis .
qed

section \<open>The example data and the publish step\<close>

lemma checked_address_examples:
  "checked_address WETH = Inr WETH" "checked_address USDC = Inr USDC"
  "checked_address helper_address = Inr helper_address"
  "checked_address ''A'' = Inl ValueError"
  by (simp_all add: checked_address_def WETH_def USDC_def helper_address_def)

lemma example_addresses_differ:
  "WETH \<noteq> USDC" "USDC \<noteq> WETH" "WETH \<noteq> helper_address" "USDC \<noteq> helper_address"
  "helper_address \<noteq> WETH" "helper_address \<noteq> USDC"
  by (simp_all add: WETH_def USDC_def helper_address_def)

lemma client_at_10_eq: "client_at_10 = snapshot_client result_10"
  by (simp add: client_at_10_def snapshot_client_def on_new_block_def init_client_def
      result_10_def Let_def build_direction_book_def)

lemma client_at_10_fields:
  "directions client_at_10 (WETH, USDC)
     = Some \<lparr>from_token = WETH, to_token = USDC,
             probes = [\<lparr>amount_in = 100, amount_out = 200\<rparr>],
             from_balance = 0, to_balance = 0\<rparr>"
  "directions client_at_10 (WETH, helper_address) = None"
  "current_block client_at_10 = 10"
  by (simp_all add: client_at_10_eq snapshot_client_def result_10_def Let_def
      build_direction_book_def example_addresses_differ)





section \<open>Claims about the quoting engine\<close>

text \<open>
  Claim C1. On the curve \<open>[(100,200),(300,500)]\<close> the engine answers \<open>100\<close> for
  \<open>amount_in = 50\<close> (origin segment), \<open>350\<close> for \<open>amount_in = 200\<close> (segment between
  the two probes) and \<open>500\<close> for \<open>amount_in = 1000\<close> (beyond the last probe); this holds
  for \<open>_calc_quote\<close> and for the \<open>QuoteResult\<close> of \<open>get_amount_out\<close>, whatever the
  tokens, balances and block number are.
\<close>

theorem C1_exact_interpolation:
  fixes d :: DirectionBook
  defines "ps \<equiv> [\<lparr>amount_in = 100, amount_out = 200\<rparr>, \<lparr>amount_in = 300, amount_out = 500\<rparr>]"
  shows
    "calc_quote ps 50 = Inr (OriginSegment, 100)
     \<and> calc_quote ps 200 = Inr (SegmentInterp 0, 350)
     \<and> calc_quote ps 1000 = Inr (BeyondLast, 500)
     \<and> get_amount_out (d\<lparr>probes := ps\<rparr>) 50 bn
         = Inr \<lparr>qr_from_token = from_token d, qr_to_token = to_token d,
                qr_amount_in = 50, qr_amount_out = 100, qr_block_number = bn\<rparr>
     \<and> get_amount_out (d\<lparr>probes := ps\<rparr>) 200 bn
         = Inr \<lparr>qr_from_token = from_token d, qr_to_token = to_token d,
                qr_amount_in = 200, qr_amount_out = 350, qr_block_number = bn\<rparr>
     \<and> get_amount_out (d\<lparr>probes := ps\<rparr>) 1000 bn
         = Inr \<lparr>qr_from_token = from_token d, qr_to_token = to_token d,
                qr_amount_in = 1000, qr_amount_out = 500, qr_block_number = bn\<rparr>"
proof -
  have a: "calc_quote ps 50 = Inr (OriginSegment, 100)"
    by (simp add: ps_def calc_quote_def item_def floordiv_def)
  have b: "calc_quote ps 200 = Inr (SegmentInterp 0, 350)"
    by (simp add: ps_def calc_quote_def item_def floordiv_def scan_segments.simps)
  have c: "calc_quote ps 1000 = Inr (BeyondLast, 500)"
    by (simp add: ps_def calc_quote_def item_def last_item_def scan_segments.simps)
  have ne: "ps \<noteq> []" by (simp add: ps_def)
  show ?thesis
    using ne by (simp add: a b c get_amount_out_def)
qed

text \<open>
  Claim C7. For every curve, the empty one included, and every \<open>amount_in \<le> 0\<close>,
  \<open>get_amount_out\<close> returns a \<open>QuoteResult\<close> with \<open>amount_out = 0\<close> and does not
  raise; and for every \<open>amount_in\<close> a direction with an empty probe list yields
  \<open>amount_out = 0\<close>.
\<close>

theorem C7_zero_for_nonpositive_or_empty:
  "(a \<le> 0 \<longrightarrow>
      get_amount_out d a bn
        = Inr \<lparr>qr_from_token = from_token d, qr_to_token = to_token d,
               qr_amount_in = a, qr_amount_out = 0, qr_block_number = bn\<rparr>)
   \<and> (probes d = [] \<longrightarrow>
      get_amount_out d a bn
        = Inr \<lparr>qr_from_token = from_token d, qr_to_token = to_token d,
               qr_amount_in = a, qr_amount_out = 0, qr_block_number = bn\<rparr>)"
  by (simp add: get_amount_out_def empty_result_def)

theorem C7_zero_for_nonpositive_or_empty_witness:
  "(-5::int) \<le> 0
   \<and> probes \<lparr>from_token = ''A'', to_token = ''B'', probes = [], from_balance = 0,
              to_balance = 0\<rparr> = []
   \<and> get_amount_out \<lparr>from_token = ''A'', to_token = ''B'', probes = [], from_balance = 0,
                      to_balance = 0\<rparr> (-5) 7
       = Inr \<lparr>qr_from_token = ''A'', qr_to_token = ''B'', qr_amount_in = -5,
              qr_amount_out = 0, qr_block_number = 7\<rparr>"
  using C7_zero_for_nonpositive_or_empty
          [of "-5" "\<lparr>from_token = ''A'', to_token = ''B'', probes = [], from_balance = 0,
                     to_balance = 0\<rparr>" 7]
  by simp

text \<open>
  Claim C10. \<open>get_amount_out\<close> is total: for every integer \<open>amount_in\<close> and every list
  of probe points, sorted or not, of any sign, it returns a result and raises nothing.
  Where it calls \<open>_calc_quote\<close> the amount is at least 1, and \<open>_calc_quote\<close> called
  with an amount of at least 1 never returns through the guard
  \<open>first.amount_in == 0\<close> of the origin segment.
\<close>

theorem C10_get_amount_out_total:
  "(\<exists>r. get_amount_out d a bn = Inr r)
   \<and> (\<not> (a \<le> 0 \<or> probes d = []) \<longrightarrow>
        1 \<le> a \<and> (\<exists>site v. calc_quote (probes d) a = Inr (site, v) \<and> site \<noteq> OriginZero))
   \<and> (1 \<le> a \<longrightarrow> (\<forall>ps v. calc_quote ps a \<noteq> Inr (OriginZero, v)))"
proof (intro conjI impI allI)
  show "\<exists>r. get_amount_out d a bn = Inr r"
  proof (cases "a \<le> 0 \<or> probes d = []")
    case True
    then show ?thesis by (auto simp: get_amount_out_def)
  next
    case False
    then obtain site v where "calc_quote (probes d) a = Inr (site, v)"
      using calc_quote_total[of "probes d" a] by auto
    with False show ?thesis by (simp add: get_amount_out_def)
  qed
next
  assume h: "\<not> (a \<le> 0 \<or> probes d = [])"
  then show "1 \<le> a" by simp
  from h obtain site v where sv: "calc_quote (probes d) a = Inr (site, v)"
    using calc_quote_total[of "probes d" a] by auto
  moreover have "site \<noteq> OriginZero"
    using sv h calc_quote_not_origin_zero[of a "probes d" v] by auto
  ultimately show "\<exists>site v. calc_quote (probes d) a = Inr (site, v) \<and> site \<noteq> OriginZero"
    by blast
next
  fix ps v assume "1 \<le> a"
  then show "calc_quote ps a \<noteq> Inr (OriginZero, v)" by (rule calc_quote_not_origin_zero)
qed

theorem C10_get_amount_out_total_witness:
  "\<not> ((50::int) \<le> 0
       \<or> probes \<lparr>from_token = ''A'', to_token = ''B'',
                  probes = [\<lparr>amount_in = 100, amount_out = 200\<rparr>],
                  from_balance = 0, to_balance = 0\<rparr> = [])
   \<and> (1::int) \<le> 50
   \<and> (\<exists>r. get_amount_out \<lparr>from_token = ''A'', to_token = ''B'',
                  probes = [\<lparr>amount_in = 100, amount_out = 200\<rparr>],
                  from_balance = 0, to_balance = 0\<rparr> 50 7 = Inr r)
   \<and> (\<exists>site v. calc_quote [\<lparr>amount_in = 100, amount_out = 200\<rparr>] 50 = Inr (site, v)
                \<and> site \<noteq> OriginZero)
   \<and> calc_quote [\<lparr>amount_in = 0, amount_out = 9\<rparr>] 50 \<noteq> Inr (OriginZero, 0)"
  using C10_get_amount_out_total
          [of "\<lparr>from_token = ''A'', to_token = ''B'',
                probes = [\<lparr>amount_in = 100, amount_out = 200\<rparr>],
                from_balance = 0, to_balance = 0\<rparr>" 50 7]
  by simp

text \<open>
  Claim C9. On a curve whose probe points have strictly increasing \<open>amount_in\<close> and
  non-decreasing, non-negative \<open>amount_out\<close>, the amount returned by
  \<open>get_amount_out\<close> is monotone: \<open>a \<le> b\<close> gives an output for \<open>a\<close> that is at most the
  output for \<open>b\<close>; and no returned amount exceeds the \<open>amount_out\<close> of the last probe
  point.
\<close>

theorem C9_monotone_and_capped:
  assumes curve: "increasing_curve (probes d)" and ab: "a \<le> b"
  shows "\<exists>ra rb. get_amount_out d a bn = Inr ra \<and> get_amount_out d b bn = Inr rb
           \<and> qr_amount_out ra \<le> qr_amount_out rb
           \<and> (probes d \<noteq> [] \<longrightarrow> qr_amount_out ra \<le> amount_out (last (probes d))
                                \<and> qr_amount_out rb \<le> amount_out (last (probes d)))"
proof (cases "probes d")
  case Nil
  then show ?thesis by (simp add: get_amount_out_def empty_result_def)
next
  case (Cons p rest)
  define v where "v x = (if x \<le> 0 then 0
                         else if x \<le> amount_in p then (x * amount_out p) div amount_in p
                         else interp_from p rest x)" for x
  have inc: "increasing_curve (p # rest)" using curve Cons by simp
  have p0: "0 \<le> amount_out p" using inc by (simp add: increasing_curve_def)
  have plast: "amount_out p \<le> amount_out (last (p # rest))"
    using inc by (rule increasing_curve_last)
  have range: "0 \<le> v x \<and> v x \<le> amount_out (last (p # rest))" for x
  proof (cases "x \<le> 0")
    case True
    then show ?thesis using p0 plast by (simp add: v_def)
  next
    case pos: False
    show ?thesis
    proof (cases "x \<le> amount_in p")
      case True
      then show ?thesis
        using pos p0 plast origin_value_bounds[of x "amount_in p" "amount_out p"]
        by (simp add: v_def)
    next
      case False
      then have "amount_in p < x" by simp
      from interp_from_bounds[OF inc this] pos False p0 show ?thesis by (simp add: v_def)
    qed
  qed
  have mono: "v a \<le> v b"
  proof (cases "a \<le> 0")
    case True
    then show ?thesis using range[of b] by (simp add: v_def)
  next
    case pos: False
    with ab have posb: "\<not> b \<le> 0" by simp
    show ?thesis
    proof (cases "b \<le> amount_in p")
      case True
      with ab have ap: "a \<le> amount_in p" by simp
      have "0 < amount_in p" using pos ap by simp
      then have "(a * amount_out p) div amount_in p \<le> (b * amount_out p) div amount_in p"
        using p0 ab by (intro seg_mono)
      then show ?thesis using pos posb True ap by (simp add: v_def)
    next
      case bp: False
      then have pb: "amount_in p < b" by simp
      show ?thesis
      proof (cases "a \<le> amount_in p")
        case True
        have "v a \<le> amount_out p"
          using pos True p0 origin_value_bounds[of a "amount_in p" "amount_out p"]
          by (simp add: v_def)
        also have "amount_out p \<le> interp_from p rest b"
          using interp_from_bounds[OF inc pb] by simp
        finally show ?thesis using posb bp by (simp add: v_def)
      next
        case False
        then have "amount_in p < a" by simp
        from interp_from_mono[OF inc this ab] pos posb False bp show ?thesis
          by (simp add: v_def)
      qed
    qed
  qed
  have ga: "get_amount_out d a bn = Inr (empty_result d a (v a) bn)"
    unfolding v_def by (rule get_amount_out_value[OF Cons])
  have gb: "get_amount_out d b bn = Inr (empty_result d b (v b) bn)"
    unfolding v_def by (rule get_amount_out_value[OF Cons])
  show ?thesis
    using ga gb mono range[of a] range[of b] Cons by (simp add: empty_result_def)
qed

theorem C9_monotone_and_capped_witness:
  "increasing_curve [\<lparr>amount_in = 100, amount_out = 200\<rparr>, \<lparr>amount_in = 300, amount_out = 500\<rparr>]
   \<and> (50::int) \<le> 200
   \<and> (\<exists>ra rb.
        get_amount_out \<lparr>from_token = ''A'', to_token = ''B'',
            probes = [\<lparr>amount_in = 100, amount_out = 200\<rparr>, \<lparr>amount_in = 300, amount_out = 500\<rparr>],
            from_balance = 0, to_balance = 0\<rparr> 50 7 = Inr ra
      \<and> get_amount_out \<lparr>from_token = ''A'', to_token = ''B'',
            probes = [\<lparr>amount_in = 100, amount_out = 200\<rparr>, \<lparr>amount_in = 300, amount_out = 500\<rparr>],
            from_balance = 0, to_balance = 0\<rparr> 200 7 = Inr rb
      \<and> qr_amount_out ra \<le> qr_amount_out rb
      \<and> qr_amount_out ra \<le> 500 \<and> qr_amount_out rb \<le> 500)"
proof -
  let ?ps = "[\<lparr>amount_in = 100, amount_out = 200\<rparr>, \<lparr>amount_in = 300, amount_out = 500\<rparr>]"
  let ?d = "\<lparr>from_token = ''A'', to_token = ''B'', probes = ?ps, from_balance = 0, to_balance = 0\<rparr>"
  have c: "increasing_curve (probes ?d)" by (simp add: increasing_curve_def)
  have le: "(50::int) \<le> 200" by simp
  from C9_monotone_and_capped[OF c le, of 7] c show ?thesis by simp
qed

text \<open>
  Claim C4, as amended. On the curve \<open>[(100,200),(100,250)]\<close>, whose two points share
  their \<open>amount_in\<close>, the query \<open>amount_in = 100\<close> raises nothing and returns
  \<open>amount_out = 200\<close>, the output of the lower point. In general no query on any curve
  ends in a division by zero, and for a segment of zero input width, between the points
  \<open>k\<close> and \<open>k + 1\<close>, the query at the shared \<open>amount_in\<close> returns the \<open>amount_out\<close>
  of the segment's lower point \<open>k\<close> when that query is positive and every probe before
  \<open>k\<close> lies strictly below it.
\<close>

theorem C4_degenerate_segment:
  fixes d :: DirectionBook
  shows
  "calc_quote [\<lparr>amount_in = 100, amount_out = 200\<rparr>, \<lparr>amount_in = 100, amount_out = 250\<rparr>] 100
     = Inr (OriginSegment, 200)
   \<and> get_amount_out
        (d\<lparr>probes := [\<lparr>amount_in = 100, amount_out = 200\<rparr>, \<lparr>amount_in = 100, amount_out = 250\<rparr>]\<rparr>)
        100 bn
       = Inr \<lparr>qr_from_token = from_token d, qr_to_token = to_token d,
              qr_amount_in = 100, qr_amount_out = 200, qr_block_number = bn\<rparr>
   \<and> (\<forall>ps a. calc_quote ps a \<noteq> Inl ZeroDivisionError)
   \<and> (\<forall>(e::DirectionBook) a k. Suc k < length (probes e)
          \<and> amount_in (probes e ! Suc k) - amount_in (probes e ! k) = 0
          \<and> a = amount_in (probes e ! k) \<and> 0 < a
          \<and> (\<forall>j<k. amount_in (probes e ! j) < a)
        \<longrightarrow> get_amount_out e a bn
             = Inr \<lparr>qr_from_token = from_token e, qr_to_token = to_token e,
                    qr_amount_in = a, qr_amount_out = amount_out (probes e ! k),
                    qr_block_number = bn\<rparr>)"
proof (intro conjI allI impI)
  show c: "calc_quote [\<lparr>amount_in = 100, amount_out = 200\<rparr>, \<lparr>amount_in = 100, amount_out = 250\<rparr>] 100
     = Inr (OriginSegment, 200)"
    by (simp add: calc_quote_def item_def floordiv_def)
  show "get_amount_out
        (d\<lparr>probes := [\<lparr>amount_in = 100, amount_out = 200\<rparr>, \<lparr>amount_in = 100, amount_out = 250\<rparr>]\<rparr>)
        100 bn
       = Inr \<lparr>qr_from_token = from_token d, qr_to_token = to_token d,
              qr_amount_in = 100, qr_amount_out = 200, qr_block_number = bn\<rparr>"
    by (simp add: get_amount_out_def c)
next
  fix ps :: "ProbePoint list" and a
  show "calc_quote ps a \<noteq> Inl ZeroDivisionError"
  proof (cases ps)
    case Nil
    then show ?thesis by (simp add: calc_quote_def item_def)
  next
    case Cons
    then show ?thesis using calc_quote_total[of ps a] by auto
  qed
next
  fix e :: DirectionBook and a k
  assume h: "Suc k < length (probes e)
          \<and> amount_in (probes e ! Suc k) - amount_in (probes e ! k) = 0
          \<and> a = amount_in (probes e ! k) \<and> 0 < a
          \<and> (\<forall>j<k. amount_in (probes e ! j) < a)"
  then have k: "k < length (probes e)" and ne: "probes e \<noteq> []" by auto
  from calc_quote_at_probe[OF k, of a] h
  have "calc_quote (probes e) a
          = Inr (if k = 0 then OriginSegment else SegmentInterp (k - 1), amount_out (probes e ! k))"
    by blast
  then show "get_amount_out e a bn
             = Inr \<lparr>qr_from_token = from_token e, qr_to_token = to_token e,
                    qr_amount_in = a, qr_amount_out = amount_out (probes e ! k),
                    qr_block_number = bn\<rparr>"
    using h ne by (simp add: get_amount_out_def)
qed

theorem C4_degenerate_segment_witness:
  "Suc 1 < length [\<lparr>amount_in = 50, amount_out = 10\<rparr>, \<lparr>amount_in = 100, amount_out = 200\<rparr>,
                   \<lparr>amount_in = 100, amount_out = 250\<rparr>]
   \<and> amount_in ([\<lparr>amount_in = 50, amount_out = 10\<rparr>, \<lparr>amount_in = 100, amount_out = 200\<rparr>,
                  \<lparr>amount_in = 100, amount_out = 250\<rparr>] ! Suc 1)
       - amount_in ([\<lparr>amount_in = 50, amount_out = 10\<rparr>, \<lparr>amount_in = 100, amount_out = 200\<rparr>,
                  \<lparr>amount_in = 100, amount_out = 250\<rparr>] ! 1) = 0
   \<and> amount_in ([\<lparr>amount_in = 50, amount_out = 10\<rparr>, \<lparr>amount_in = 100, amount_out = 200\<rparr>,
                  \<lparr>amount_in = 100, amount_out = 250\<rparr>] ! 0) < 100
   \<and> get_amount_out \<lparr>from_token = ''A'', to_token = ''B'',
          probes = [\<lparr>amount_in = 50, amount_out = 10\<rparr>, \<lparr>amount_in = 100, amount_out = 200\<rparr>,
                    \<lparr>amount_in = 100, amount_out = 250\<rparr>],
          from_balance = 0, to_balance = 0\<rparr> 100 7
       = Inr \<lparr>qr_from_token = ''A'', qr_to_token = ''B'', qr_amount_in = 100,
              qr_amount_out = 200, qr_block_number = 7\<rparr>"
proof -
  let ?ps = "[\<lparr>amount_in = 50, amount_out = 10\<rparr>, \<lparr>amount_in = 100, amount_out = 200\<rparr>,
              \<lparr>amount_in = 100, amount_out = 250\<rparr>]"
  let ?e = "\<lparr>from_token = ''A'', to_token = ''B'', probes = ?ps, from_balance = 0, to_balance = 0\<rparr>"
  have h: "Suc 1 < length (probes ?e)
          \<and> amount_in (probes ?e ! Suc 1) - amount_in (probes ?e ! 1) = 0
          \<and> (100::int) = amount_in (probes ?e ! 1) \<and> (0::int) < 100
          \<and> (\<forall>j<1. amount_in (probes ?e ! j) < 100)"
    by simp
  from C4_degenerate_segment[of ?e 7, THEN conjunct2, THEN conjunct2, THEN conjunct2,
         THEN spec, THEN spec, THEN spec, THEN mp, OF h]
  show ?thesis by simp
qed

text \<open>
  Without the two conditions the general part fails. On
  \<open>[(100,200),(100,250),(100,300)]\<close> the segment between the points 1 and 2 has zero
  width and the lower bound 250, and the query 100 returns 200, from the first point
  that reaches it. On \<open>[(0,5),(0,7)]\<close> the segment has zero width and the lower bound
  5, and the query 0 returns 0, through the early return for \<open>amount_in <= 0\<close>.
\<close>

theorem C4_counterexample:
  "Suc 1 < length [\<lparr>amount_in = 100, amount_out = 200\<rparr>, \<lparr>amount_in = 100, amount_out = 250\<rparr>,
                   \<lparr>amount_in = 100, amount_out = 300\<rparr>]
   \<and> amount_in ([\<lparr>amount_in = 100, amount_out = 200\<rparr>, \<lparr>amount_in = 100, amount_out = 250\<rparr>,
                  \<lparr>amount_in = 100, amount_out = 300\<rparr>] ! Suc 1)
       - amount_in ([\<lparr>amount_in = 100, amount_out = 200\<rparr>, \<lparr>amount_in = 100, amount_out = 250\<rparr>,
                  \<lparr>amount_in = 100, amount_out = 300\<rparr>] ! 1) = 0
   \<and> amount_out ([\<lparr>amount_in = 100, amount_out = 200\<rparr>, \<lparr>amount_in = 100, amount_out = 250\<rparr>,
                  \<lparr>amount_in = 100, amount_out = 300\<rparr>] ! 1) = 250
   \<and> get_amount_out \<lparr>from_token = WETH, to_token = USDC,
          probes = [\<lparr>amount_in = 100, amount_out = 200\<rparr>, \<lparr>amount_in = 100, amount_out = 250\<rparr>,
                    \<lparr>amount_in = 100, amount_out = 300\<rparr>],
          from_balance = 0, to_balance = 0\<rparr> 100 7
       = Inr \<lparr>qr_from_token = WETH, qr_to_token = USDC, qr_amount_in = 100,
              qr_amount_out = 200, qr_block_number = 7\<rparr>
   \<and> amount_in ([\<lparr>amount_in = 0, amount_out = 5\<rparr>, \<lparr>amount_in = 0, amount_out = 7\<rparr>] ! Suc 0)
       - amount_in ([\<lparr>amount_in = 0, amount_out = 5\<rparr>, \<lparr>amount_in = 0, amount_out = 7\<rparr>] ! 0) = 0
   \<and> amount_out ([\<lparr>amount_in = 0, amount_out = 5\<rparr>, \<lparr>amount_in = 0, amount_out = 7\<rparr>] ! 0) = 5
   \<and> get_amount_out \<lparr>from_token = WETH, to_token = USDC,
          probes = [\<lparr>amount_in = 0, amount_out = 5\<rparr>, \<lparr>amount_in = 0, amount_out = 7\<rparr>],
          from_balance = 0, to_balance = 0\<rparr> 0 7
       = Inr \<lparr>qr_from_token = WETH, qr_to_token = USDC, qr_amount_in = 0,
              qr_amount_out = 0, qr_block_number = 7\<rparr>"
  by (simp add: get_amount_out_def calc_quote_def item_def floordiv_def empty_result_def)

text \<open>
  Claim C5. For every non-empty curve (\<open>amount_in\<close> non-negative and not decreasing
  along the list) and every \<open>amount_in\<close> strictly greater than the last probe point's
  \<open>amount_in\<close>, the engine returns exactly the last probe point's \<open>amount_out\<close>,
  through the cap after the loop: there is no extrapolation.
\<close>

theorem C5_cap_beyond_last_probe:
  assumes curve: "sorted_curve (probes d)" and ne: "probes d \<noteq> []"
    and beyond: "amount_in (last (probes d)) < a"
  shows "calc_quote (probes d) a = Inr (BeyondLast, amount_out (last (probes d)))
         \<and> get_amount_out d a bn
             = Inr \<lparr>qr_from_token = from_token d, qr_to_token = to_token d,
                    qr_amount_in = a, qr_amount_out = amount_out (last (probes d)),
                    qr_block_number = bn\<rparr>"
proof -
  have sorted: "sorted_wrt (\<lambda>p q. amount_in p \<le> amount_in q) (probes d)"
    and nonneg: "\<forall>p \<in> set (probes d). 0 \<le> amount_in p"
    using curve by (simp_all add: sorted_curve_def list_all_iff)
  have "last (probes d) \<in> set (probes d)" using ne by simp
  then have "0 \<le> amount_in (last (probes d))" using nonneg by blast
  then have pos: "0 < a" using beyond by simp
  have all: "\<forall>p \<in> set (probes d). amount_in p < a"
  proof
    fix p assume "p \<in> set (probes d)"
    then have "amount_in p \<le> amount_in (last (probes d))"
      using sorted by (intro sorted_curve_below_last)
    then show "amount_in p < a" using beyond by simp
  qed
  have c: "calc_quote (probes d) a = Inr (BeyondLast, amount_out (last (probes d)))"
    using ne all by (rule calc_quote_beyond_every_probe)
  show ?thesis using c ne pos by (simp add: get_amount_out_def)
qed

theorem C5_cap_beyond_last_probe_witness:
  "sorted_curve [\<lparr>amount_in = 100, amount_out = 200\<rparr>, \<lparr>amount_in = 300, amount_out = 500\<rparr>]
   \<and> [\<lparr>amount_in = 100, amount_out = 200\<rparr>, \<lparr>amount_in = 300, amount_out = 500\<rparr>] \<noteq> []
   \<and> amount_in (last [\<lparr>amount_in = 100, amount_out = 200\<rparr>, \<lparr>amount_in = 300, amount_out = 500\<rparr>])
       < 1000
   \<and> get_amount_out \<lparr>from_token = WETH, to_token = USDC,
           probes = [\<lparr>amount_in = 100, amount_out = 200\<rparr>, \<lparr>amount_in = 300, amount_out = 500\<rparr>],
           from_balance = 0, to_balance = 0\<rparr> 1000 7
       = Inr \<lparr>qr_from_token = WETH, qr_to_token = USDC, qr_amount_in = 1000,
              qr_amount_out = 500, qr_block_number = 7\<rparr>"
proof -
  let ?ps = "[\<lparr>amount_in = 100, amount_out = 200\<rparr>, \<lparr>amount_in = 300, amount_out = 500\<rparr>]"
  let ?d = "\<lparr>from_token = WETH, to_token = USDC, probes = ?ps, from_balance = 0, to_balance = 0\<rparr>"
  have c: "sorted_curve (probes ?d)" by (simp add: sorted_curve_def)
  have n: "probes ?d \<noteq> []" by simp
  have b: "amount_in (last (probes ?d)) < 1000" by simp
  from C5_cap_beyond_last_probe[OF c n b, of 7] c show ?thesis by simp
qed

text \<open>
  The order of the points matters: the engine does not sort or check the list it is
  given, and on the list \<open>[(100,200),(50,500)]\<close>, which is no curve, the query 60
  stops in the origin segment.
\<close>

lemma unsorted_list_not_capped:
  "get_amount_out \<lparr>from_token = WETH, to_token = USDC,
           probes = [\<lparr>amount_in = 100, amount_out = 200\<rparr>, \<lparr>amount_in = 50, amount_out = 500\<rparr>],
           from_balance = 0, to_balance = 0\<rparr> 60 7
       = Inr \<lparr>qr_from_token = WETH, qr_to_token = USDC, qr_amount_in = 60,
              qr_amount_out = 120, qr_block_number = 7\<rparr>"
  by (simp add: get_amount_out_def calc_quote_def item_def floordiv_def)

section \<open>Claims about the client\<close>

text \<open>
  Claim C2. A refresh whose fetched result carries a block number that is at most the
  published one leaves the client as it is: directions, pair keys, block number, block
  timestamp (and the initialized flag) are unchanged, for every state of the client
  and so for every reachable one. Hence the published block number never decreases,
  neither in one refresh nor across a run of refreshes, and a result with a lower
  block number that arrives after a higher one was published does not overwrite it.
\<close>

theorem C2_stale_refresh_discarded:
  "(fetched_block_number r \<le> current_block s \<longrightarrow>
      on_new_block s n (Fetched r) = (Returned, s))
   \<and> current_block s \<le> current_block (snd (on_new_block s n outcome))
   \<and> current_block s \<le> current_block (run_refreshes s events)
   \<and> (fetched_block_number r \<le> current_block (run_refreshes s events) \<longrightarrow>
        run_refreshes s (events @ [(n, Fetched r)]) = run_refreshes s events)"
proof (intro conjI impI)
  assume "fetched_block_number r \<le> current_block s"
  then show "on_new_block s n (Fetched r) = (Returned, s)" by (rule on_new_block_stale)
next
  show "current_block s \<le> current_block (snd (on_new_block s n outcome))"
    by (rule on_new_block_current_block)
next
  show "current_block s \<le> current_block (run_refreshes s events)"
    by (rule run_refreshes_current_block)
next
  assume "fetched_block_number r \<le> current_block (run_refreshes s events)"
  then have "on_new_block (run_refreshes s events) n (Fetched r)
               = (Returned, run_refreshes s events)"
    by (rule on_new_block_stale)
  then show "run_refreshes s (events @ [(n, Fetched r)]) = run_refreshes s events"
    by (simp add: run_refreshes_append)
qed

theorem C2_stale_refresh_discarded_witness:
  "fetched_block_number \<lparr>fetched_pairs = [], fetched_block_number = 9,
                          fetched_block_timestamp = 900\<rparr>
     \<le> current_block
          (run_refreshes init_client
             [(10, Fetched \<lparr>fetched_pairs = [], fetched_block_number = 10,
                            fetched_block_timestamp = 1000\<rparr>)])
   \<and> current_block
        (run_refreshes init_client
           [(10, Fetched \<lparr>fetched_pairs = [], fetched_block_number = 10,
                          fetched_block_timestamp = 1000\<rparr>),
            (11, Fetched \<lparr>fetched_pairs = [], fetched_block_number = 9,
                          fetched_block_timestamp = 900\<rparr>)]) = 10
   \<and> on_new_block
        (run_refreshes init_client
           [(10, Fetched \<lparr>fetched_pairs = [], fetched_block_number = 10,
                          fetched_block_timestamp = 1000\<rparr>)])
        11 (Fetched \<lparr>fetched_pairs = [], fetched_block_number = 9,
                      fetched_block_timestamp = 900\<rparr>)
      = (Returned,
         run_refreshes init_client
           [(10, Fetched \<lparr>fetched_pairs = [], fetched_block_number = 10,
                          fetched_block_timestamp = 1000\<rparr>)])"
proof -
  let ?r10 = "\<lparr>fetched_pairs = [], fetched_block_number = 10, fetched_block_timestamp = 1000\<rparr>"
  let ?r9 = "\<lparr>fetched_pairs = [], fetched_block_number = 9, fetched_block_timestamp = 900\<rparr>"
  let ?s = "run_refreshes init_client [(10, Fetched ?r10)]"
  have cb: "current_block ?s = 10" by (simp add: on_new_block_def init_client_def)
  have h: "fetched_block_number ?r9 \<le> current_block ?s"
    by (simp add: on_new_block_def init_client_def)
  have h': "fetched_block_number ?r9 \<le> current_block (run_refreshes init_client [(10, Fetched ?r10)])"
    by (rule h)
  note inst = C2_stale_refresh_discarded[of ?r9 ?s 11 RaisedException "[]"]
  have a: "on_new_block ?s 11 (Fetched ?r9) = (Returned, ?s)"
    using inst h by blast
  have b: "run_refreshes init_client ([(10, Fetched ?r10)] @ [(11, Fetched ?r9)]) = ?s"
    using C2_stale_refresh_discarded[of ?r9 init_client 11 RaisedException "[(10, Fetched ?r10)]"] h
    by blast
  have c: "current_block (run_refreshes init_client [(10, Fetched ?r10), (11, Fetched ?r9)]) = 10"
    using b cb by simp
  show ?thesis using h a c by blast
qed

text \<open>
  Claim C3. When the fetch raises during a refresh, the refresh is abandoned: the
  directions, the pair keys, the block number, the block timestamp and the initialized
  flag are what they were, \<open>_on_new_block\<close> returns normally for an exception derived
  from \<open>Exception\<close> (and leaves the state alone for any other), and \<open>quote\<close> answers
  exactly as before the attempt.
\<close>

theorem C3_fetch_failure_abandons_refresh:
  "on_new_block s n RaisedException = (Returned, s)
   \<and> snd (on_new_block s n RaisedBaseException) = s
   \<and> directions (snd (on_new_block s n RaisedException)) = directions s
   \<and> pair_keys (snd (on_new_block s n RaisedException)) = pair_keys s
   \<and> current_block (snd (on_new_block s n RaisedException)) = current_block s
   \<and> block_timestamp (snd (on_new_block s n RaisedException)) = block_timestamp s
   \<and> initialized (snd (on_new_block s n RaisedException)) = initialized s
   \<and> quote to_checksum_address (snd (on_new_block s n RaisedException)) from_tok to_tok a
       = quote to_checksum_address s from_tok to_tok a"
  by (simp add: on_new_block_def)

text \<open>
  Claim C6, as amended. For every state of the client and every direction whose two
  tokens \<open>to_checksum_address\<close> accepts and whose key (the pair of normalised
  addresses) is absent from the published mapping, \<open>quote\<close> returns \<open>None\<close> and
  raises nothing; when the key is present, \<open>quote\<close> returns the result of
  \<open>get_amount_out\<close> on the stored direction, stamped with the published block number.
\<close>

theorem C6_quote_absent_direction:
  assumes "to_checksum_address from_tok = Inr f" and "to_checksum_address to_tok = Inr t"
  shows "(directions s (f, t) = None \<longrightarrow>
            quote to_checksum_address s from_tok to_tok a = Inr None)
         \<and> (\<forall>d. directions s (f, t) = Some d \<longrightarrow>
              (\<exists>r. quote to_checksum_address s from_tok to_tok a = Inr (Some r)
                   \<and> get_amount_out d a (current_block s) = Inr r
                   \<and> qr_block_number r = current_block s))"
proof (intro conjI allI impI)
  assume "directions s (f, t) = None"
  then show "quote to_checksum_address s from_tok to_tok a = Inr None"
    using assms by (simp add: quote_def get_direction_def)
next
  fix d assume d: "directions s (f, t) = Some d"
  obtain r where r: "get_amount_out d a (current_block s) = Inr r"
    using get_amount_out_returns by blast
  have "quote to_checksum_address s from_tok to_tok a = Inr (Some r)"
    using assms d r by (simp add: quote_def get_direction_def)
  moreover have "qr_block_number r = current_block s"
    using get_amount_out_fields[OF r] by simp
  ultimately show "\<exists>r. quote to_checksum_address s from_tok to_tok a = Inr (Some r)
                   \<and> get_amount_out d a (current_block s) = Inr r
                   \<and> qr_block_number r = current_block s"
    using r by blast
qed

theorem C6_quote_absent_direction_witness:
  "checked_address WETH = Inr WETH
   \<and> checked_address USDC = Inr USDC
   \<and> checked_address helper_address = Inr helper_address
   \<and> directions client_at_10 (WETH, helper_address) = None
   \<and> quote checked_address client_at_10 WETH helper_address 50 = Inr None
   \<and> directions client_at_10 (WETH, USDC)
       = Some \<lparr>from_token = WETH, to_token = USDC,
               probes = [\<lparr>amount_in = 100, amount_out = 200\<rparr>],
               from_balance = 0, to_balance = 0\<rparr>
   \<and> quote checked_address client_at_10 WETH USDC 50
       = Inr (Some \<lparr>qr_from_token = WETH, qr_to_token = USDC, qr_amount_in = 50,
                    qr_amount_out = 100, qr_block_number = 10\<rparr>)"
proof -
  let ?d = "\<lparr>from_token = WETH, to_token = USDC,
             probes = [\<lparr>amount_in = 100, amount_out = 200\<rparr>],
             from_balance = 0, to_balance = 0\<rparr>"
  note ok = checked_address_examples(1-3)
  note absent = client_at_10_fields(2)
  note present = client_at_10_fields(1)
  have q1: "quote checked_address client_at_10 WETH helper_address 50 = Inr None"
    using C6_quote_absent_direction[OF ok(1) ok(3), of client_at_10 50] absent by blast
  have "\<exists>r. quote checked_address client_at_10 WETH USDC 50 = Inr (Some r)
            \<and> get_amount_out ?d 50 (current_block client_at_10) = Inr r
            \<and> qr_block_number r = current_block client_at_10"
    using C6_quote_absent_direction[OF ok(1) ok(2), of client_at_10 50] present by blast
  moreover have "get_amount_out ?d 50 (current_block client_at_10)
                   = Inr \<lparr>qr_from_token = WETH, qr_to_token = USDC, qr_amount_in = 50,
                          qr_amount_out = 100, qr_block_number = 10\<rparr>"
    by (simp add: get_amount_out_def calc_quote_def item_def floordiv_def
        client_at_10_fields(3))
  ultimately have q2: "quote checked_address client_at_10 WETH USDC 50
       = Inr (Some \<lparr>qr_from_token = WETH, qr_to_token = USDC, qr_amount_in = 50,
                    qr_amount_out = 100, qr_block_number = 10\<rparr>)"
    by auto
  show ?thesis using ok absent present q1 q2 by blast
qed

text \<open>
  Without the condition on the tokens the claim fails: \<open>_get_direction\<close> normalises
  the tokens outside any \<open>try\<close>, so a token that is not an address makes \<open>quote\<close> raise,
  here on a client whose mapping is empty.
\<close>

theorem C6_counterexample:
  "directions init_client (''A'', ''B'') = None
   \<and> checked_address ''A'' = Inl ValueError
   \<and> quote checked_address init_client ''A'' ''B'' 50 = Inl ValueError"
  by (simp add: quote_def get_direction_def checked_address_examples init_client_def)




end
